theory Spec2Isabelle
  imports Complex_Main "HOL-Library.Word"
begin

section \<open>Data model\<close>

text \<open>
  The program is \<^verbatim>\<open>src/ascii_art.py\<close>. A Python \<^verbatim>\<open>str\<close> is a sequence of Unicode code
  points, and \<^verbatim>\<open>len\<close> counts code points, so a Python string is a list of code points
  here, each the integer that \<^verbatim>\<open>ord\<close> gives (two of the palettes are not ASCII). File
  paths and messages are plain strings.
\<close>

type_synonym pychar = int
type_synonym pystr = "pychar list"

text \<open>
  A grayscale (mode \<^verbatim>\<open>L\<close>) image of the imaging library: its \<^verbatim>\<open>size\<close> is
  \<open>(img_w, img_h)\<close>, and \<open>pix g x y\<close> is the 8-bit intensity in column \<open>x\<close> of row
  \<open>y\<close>. Only the pixels inside the size belong to the image.
\<close>

record image =
  img_w :: nat
  img_h :: nat
  pix :: "nat \<Rightarrow> nat \<Rightarrow> 8 word"

text \<open>
  \<^verbatim>\<open>np.array(gray, dtype=np.uint8)\<close>: the rows of the image from top to bottom, an array
  of shape \<open>(img_h, img_w)\<close>.
\<close>

definition np_array :: "image \<Rightarrow> 8 word list list" where
  "np_array g = map (\<lambda>y. map (\<lambda>x. pix g x y) [0..<img_w g]) [0..<img_h g]"

text \<open>
  The exceptions the conversion can raise: the \<^verbatim>\<open>ValueError\<close> of line 92 (width too small),
  the \<^verbatim>\<open>ZeroDivisionError\<close> of \<^verbatim>\<open>width / float(w0)\<close> on an image of width zero, and the
  \<^verbatim>\<open>IndexError\<close> of \<^verbatim>\<open>charset[i]\<close> on an empty palette.
\<close>

datatype error = WidthTooSmall | ZeroDivisionError | IndexError

text \<open>The palettes, lines 24 to 30, as code points in the order the source lists them.\<close>

definition DEFAULT_CHARSET :: pystr where
  "DEFAULT_CHARSET = [64, 37, 35, 42, 43, 61, 45, 58, 46, 32]"

definition CHARSETS :: "(string \<times> pystr) list" where
  "CHARSETS =
    [(''dense'', [64, 37, 35, 42, 43, 61, 45, 58, 46, 32]),
     (''blocks'', [9608, 9619, 9618, 9617, 32]),
     (''simple'', [35, 42, 43, 61, 45, 58, 46, 32]),
     (''dots'', [8226, 58, 183, 46, 32])]"

section \<open>Numbers\<close>

text \<open>
  Python's \<^verbatim>\<open>float\<close> and numpy's \<^verbatim>\<open>float32\<close> are modelled by the rational numbers they
  denote, with exact arithmetic: the model covers finite values and leaves the rounding
  error of each floating-point operation out. The integers are Python's unbounded ones;
  the \<^verbatim>\<open>int32\<close> index array holds values between 0 and the palette size, and is
  modelled by \<open>int\<close>.
\<close>

text \<open>\<^verbatim>\<open>int(x)\<close> on a float: truncation towards zero.\<close>

definition py_int :: "rat \<Rightarrow> int" where
  "py_int q = (if q < 0 then - \<lfloor>- q\<rfloor> else \<lfloor>q\<rfloor>)"

text \<open>\<^verbatim>\<open>ndarray.round()\<close>: to the nearest integer, a tie to the even neighbour.\<close>

definition np_round :: "rat \<Rightarrow> int" where
  "np_round q =
    (let f = \<lfloor>q\<rfloor>; d = q - of_int f
     in if d < 1 / 2 then f else if 1 / 2 < d then f + 1 else if even f then f else f + 1)"

text \<open>\<^verbatim>\<open>np.clip(a, lo, hi)\<close> is \<^verbatim>\<open>minimum(maximum(a, lo), hi)\<close>.\<close>

definition np_clip :: "int \<Rightarrow> int \<Rightarrow> int \<Rightarrow> int" where
  "np_clip a lo hi = min (max a lo) hi"

text \<open>
  \<^verbatim>\<open>s[i]\<close> on a sequence of length \<open>len\<close>: an index from 0 to \<open>len - 1\<close> reads from the
  front, an index from \<open>- len\<close> to \<open>- 1\<close> reads from the back, and every other index raises.
\<close>

definition py_getitem :: "'a list \<Rightarrow> int \<Rightarrow> error + 'a" where
  "py_getitem s i =
    (if 0 \<le> i \<and> i < int (length s) then Inr (s ! nat i)
     else if - int (length s) \<le> i \<and> i < 0 then Inr (s ! nat (int (length s) + i))
     else Inl IndexError)"

section \<open>The resampler and quantizer: \<^verbatim>\<open>image_to_ascii_lines\<close>\<close>

text \<open>Lines 98 to 100: the target height for a source of size \<open>(w0, h0)\<close>, \<open>w0\<close> not zero.\<close>

definition target_height :: "nat \<Rightarrow> nat \<Rightarrow> int \<Rightarrow> rat \<Rightarrow> int" where
  "target_height w0 h0 width scale_y =
    (let ratio = of_int width / of_nat w0
     in max 1 (py_int (of_nat h0 * ratio * scale_y)))"

text \<open>
  Lines 105 to 112 at one cell: \<open>n\<close> is \<^verbatim>\<open>len(charset)\<close> and \<open>a\<close> the resampled
  intensity. \<^verbatim>\<open>255 - arr\<close> is computed in \<^verbatim>\<open>uint8\<close>.
\<close>

definition pixel_index :: "int \<Rightarrow> bool \<Rightarrow> 8 word \<Rightarrow> int" where
  "pixel_index n invert a =
    (let a' = (if invert then 255 - a else a);
         vals = 1 - of_nat (unat a') / (255 :: rat);
         idx = np_round (vals * of_int (n - 1))
     in np_clip idx 0 (n - 1))"

text \<open>Line 115: \<^verbatim>\<open>"".join(charset[i] for i in row)\<close>, and the list of all rows.\<close>

fun join_row :: "pystr \<Rightarrow> int list \<Rightarrow> error + pystr" where
  "join_row charset [] = Inr []"
| "join_row charset (i # row) =
    (case py_getitem charset i of
       Inl e \<Rightarrow> Inl e
     | Inr c \<Rightarrow> (case join_row charset row of Inl e \<Rightarrow> Inl e | Inr cs \<Rightarrow> Inr (c # cs)))"

fun build_lines :: "pystr \<Rightarrow> int list list \<Rightarrow> error + pystr list" where
  "build_lines charset [] = Inr []"
| "build_lines charset (row # idx) =
    (case join_row charset row of
       Inl e \<Rightarrow> Inl e
     | Inr l \<Rightarrow> (case build_lines charset idx of Inl e \<Rightarrow> Inl e | Inr ls \<Rightarrow> Inr (l # ls)))"

text \<open>
  The function itself. Its first argument \<open>resize\<close> stands for the library call
  \<^verbatim>\<open>gray.resize((width, new_h), Image.BICUBIC)\<close>, which is not code of this repository;
  \<open>gray\<close> is the grayscale grid \<^verbatim>\<open>img.convert("L")\<close>. \<open>index_array\<close> is the array
  \<^verbatim>\<open>idx\<close> of lines 97 to 112, for a palette of \<open>n\<close> characters.
\<close>

definition index_array ::
  "(image \<Rightarrow> nat \<times> nat \<Rightarrow> image) \<Rightarrow> image \<Rightarrow> int \<Rightarrow> int \<Rightarrow> bool \<Rightarrow> rat \<Rightarrow> int list list"
where
  "index_array resize gray width n invert scale_y =
    (let w0 = img_w gray; h0 = img_h gray;
         new_h = target_height w0 h0 width scale_y;
         gray' = resize gray (nat width, nat new_h);
         arr = np_array gray'
     in map (map (pixel_index n invert)) arr)"

definition image_to_ascii_lines ::
  "(image \<Rightarrow> nat \<times> nat \<Rightarrow> image) \<Rightarrow> image \<Rightarrow> int \<Rightarrow> pystr \<Rightarrow> bool \<Rightarrow> rat \<Rightarrow> error + pystr list"
where
  "image_to_ascii_lines resize gray width charset invert scale_y =
    (if width < 10 then Inl WidthTooSmall
     else if img_w gray = 0 then Inl ZeroDivisionError
     else build_lines charset
            (index_array resize gray width (int (length charset)) invert scale_y))"

subsection \<open>What is assumed of the library's resampler\<close>

text \<open>
  The resampler returns an image of the size it is asked for, and it resamples a
  non-empty grid whose pixels all have one value to a grid of that value.
\<close>

definition is_uniform :: "image \<Rightarrow> 8 word \<Rightarrow> bool" where
  "is_uniform g v \<longleftrightarrow> (\<forall>row \<in> set (np_array g). \<forall>a \<in> set row. a = v)"

definition keeps_size :: "(image \<Rightarrow> nat \<times> nat \<Rightarrow> image) \<Rightarrow> bool" where
  "keeps_size resize \<longleftrightarrow>
    (\<forall>g w h. 0 < w \<longrightarrow> 0 < h \<longrightarrow> img_w (resize g (w, h)) = w \<and> img_h (resize g (w, h)) = h)"

definition keeps_uniform :: "(image \<Rightarrow> nat \<times> nat \<Rightarrow> image) \<Rightarrow> bool" where
  "keeps_uniform resize \<longleftrightarrow>
    (\<forall>g w h v. 0 < img_w g \<longrightarrow> 0 < img_h g \<longrightarrow> is_uniform g v \<longrightarrow>
       is_uniform (resize g (w, h)) v)"

text \<open>
  A nearest-neighbour resampler and two sample grids. They instantiate the argument
  \<open>resize\<close> where a statement is evaluated at a concrete input; on a grid of one value
  every resampling filter returns that value.
\<close>

definition nearest_resize :: "image \<Rightarrow> nat \<times> nat \<Rightarrow> image" where
  "nearest_resize g sz =
    \<lparr>img_w = fst sz, img_h = snd sz,
     pix = (\<lambda>x y. pix g (x * img_w g div fst sz) (y * img_h g div snd sz))\<rparr>"

definition flat_image :: "nat \<Rightarrow> nat \<Rightarrow> 8 word \<Rightarrow> image" where
  "flat_image w h v = \<lparr>img_w = w, img_h = h, pix = (\<lambda>x y. v)\<rparr>"

definition ramp_image :: "nat \<Rightarrow> nat \<Rightarrow> image" where
  "ramp_image w h = \<lparr>img_w = w, img_h = h, pix = (\<lambda>x y. of_nat (16 * x + y))\<rparr>"

subsection \<open>The specification's formulas\<close>



section \<open>The glyph rasterizer: \<^verbatim>\<open>render_ascii_to_image\<close>\<close>






section \<open>The command line: how \<^verbatim>\<open>main\<close> resolves its input\<close>









section \<open>Rounding to the nearest integer\<close>

lemma np_round_unique:
  assumes "\<bar>q - of_int n\<bar> < 1 / 2"
  shows "np_round q = n"
proof -
  have f: "of_int \<lfloor>q\<rfloor> \<le> q" "q < of_int \<lfloor>q\<rfloor> + 1" by linarith+
  from assms have n: "of_int n - 1 / 2 < q" "q < of_int n + 1 / 2" by linarith+
  have "n = \<lfloor>q\<rfloor> \<or> n = \<lfloor>q\<rfloor> + 1"
  proof -
    have "(of_int n :: rat) < of_int \<lfloor>q\<rfloor> + 2" using f n by linarith
    then have "n < \<lfloor>q\<rfloor> + 2" by (metis of_int_less_iff of_int_add of_int_numeral)
    moreover have "(of_int \<lfloor>q\<rfloor> :: rat) < of_int n + 1" using f n by linarith
    then have "\<lfloor>q\<rfloor> < n + 1" by (metis of_int_less_iff of_int_add of_int_1)
    ultimately show ?thesis by linarith
  qed
  then show ?thesis
  proof
    assume "n = \<lfloor>q\<rfloor>"
    then show ?thesis using n by (simp add: np_round_def Let_def)
  next
    assume e: "n = \<lfloor>q\<rfloor> + 1"
    then have "1 / 2 < q - of_int \<lfloor>q\<rfloor>" using n by simp
    then show ?thesis using e by (simp add: np_round_def Let_def)
  qed
qed

text \<open>
  A multiple of \<open>1 / 255\<close> is never half-way between two integers: it lies within
  \<open>127 / 255\<close> of the integer \<open>(2 * k + 255) div 510\<close>.
\<close>

lemma near_255_le:
  fixes k :: int
  shows "\<bar>of_int k / 255 - (of_int ((2 * k + 255) div 510) :: rat)\<bar> \<le> 127 / 255"
proof -
  define n where "n = (2 * k + 255) div 510"
  define r where "r = (2 * k + 255) mod 510"
  have eq: "2 * k + 255 = 510 * n + r" by (simp add: n_def r_def)
  have r: "0 \<le> r" "r < 510" by (simp_all add: r_def)
  have "odd r"
  proof -
    have "odd (2 * k + 255)" by simp
    then show ?thesis unfolding eq by simp
  qed
  then have "r \<noteq> 0" by (metis even_zero)
  with r have r1: "1 \<le> r" "r \<le> 509" by linarith+
  have k: "2 * k = 510 * n + r - 255" using eq by linarith
  have "(of_int k :: rat) = (of_int (2 * k)) / 2" by simp
  also have "\<dots> = of_int (510 * n + r - 255) / 2" by (simp only: k)
  finally have "(of_int k :: rat) / 255 - of_int n = (of_int r - 255) / 510"
    by (simp add: field_simps)
  moreover have "\<bar>(of_int r - 255 :: rat) / 510\<bar> \<le> 127 / 255"
  proof -
    have "(of_int r :: rat) \<le> of_int 509" "(of_int 1 :: rat) \<le> of_int r"
      using r1 by (simp_all only: of_int_le_iff)
    then have "(of_int r :: rat) \<le> 509" "(1 :: rat) \<le> of_int r" by simp_all
    then show ?thesis by (simp add: abs_le_iff)
  qed
  ultimately have "\<bar>(of_int k :: rat) / 255 - of_int n\<bar> \<le> 127 / 255" by (simp only:)
  then show ?thesis unfolding n_def .
qed

lemma near_255:
  fixes k :: int
  shows "\<bar>of_int k / 255 - (of_int ((2 * k + 255) div 510) :: rat)\<bar> < 1 / 2"
  using near_255_le [of k] by simp

section \<open>The palette index of one cell\<close>

lemma unat_u8_le: "unat (a :: 8 word) \<le> 255"
proof -
  have "unat a < 2 ^ LENGTH(8)" by (rule unsigned_less)
  then show ?thesis by simp
qed


lemma vals_times:
  "(1 - of_nat u / (255 :: rat)) * of_int m = of_int ((255 - int u) * m) / 255"
  by (simp add: field_simps)

lemma half_div_bounds:
  fixes k m :: int
  assumes "0 \<le> k" "k \<le> 255 * m"
  shows "0 \<le> (2 * k + 255) div 510" "(2 * k + 255) div 510 \<le> m"
proof -
  show "0 \<le> (2 * k + 255) div 510" using assms by simp
  show "(2 * k + 255) div 510 \<le> m" using assms by arith
qed

text \<open>The index of an intensity \<open>u\<close> in integer arithmetic; clipping does not change it.\<close>

lemma level_closed:
  fixes u :: nat and n :: int
  assumes "u \<le> 255" "1 \<le> n"
  defines "k \<equiv> (255 - int u) * (n - 1)"
  shows "np_round ((1 - of_nat u / 255) * of_int (n - 1)) = (2 * k + 255) div 510"
    and "round ((1 - of_nat u / (255 :: rat)) * of_int (n - 1)) = (2 * k + 255) div 510"
    and "0 \<le> (2 * k + 255) div 510" and "(2 * k + 255) div 510 \<le> n - 1"
proof -
  have k0: "0 \<le> k" unfolding k_def using assms by simp
  have k1: "k \<le> 255 * (n - 1)" unfolding k_def using assms
    by (intro mult_right_mono) simp_all
  show "np_round ((1 - of_nat u / 255) * of_int (n - 1)) = (2 * k + 255) div 510"
    unfolding vals_times k_def [symmetric] by (rule np_round_unique) (rule near_255)
  show "round ((1 - of_nat u / (255 :: rat)) * of_int (n - 1)) = (2 * k + 255) div 510"
    unfolding vals_times k_def [symmetric] by (rule round_unique') (rule near_255)
  show "0 \<le> (2 * k + 255) div 510" "(2 * k + 255) div 510 \<le> n - 1"
    using half_div_bounds [OF k0 k1] by simp_all
qed

text \<open>
  The index does not depend on the last digits of the product: a value within \<open>1 / 510\<close>
  of the exact product rounds to the same integer. The rounding errors of single
  precision, which the model leaves out, are of this kind.
\<close>

lemma index_tolerates_error:
  fixes u :: nat and n :: int and d :: rat
  assumes "u \<le> 255" "1 \<le> n"
    and "\<bar>d - (1 - of_nat u / 255) * of_int (n - 1)\<bar> < 1 / 510"
  shows "np_round d = np_round ((1 - of_nat u / 255) * of_int (n - 1))"
proof -
  define k where "k = (255 - int u) * (n - 1)"
  define j where "j = (2 * k + 255) div 510"
  have x: "(1 - of_nat u / (255 :: rat)) * of_int (n - 1) = of_int k / 255"
    unfolding vals_times k_def ..
  have "\<bar>of_int k / 255 - (of_int j :: rat)\<bar> \<le> 127 / 255"
    unfolding j_def by (rule near_255_le)
  with assms(3) have "\<bar>d - of_int j\<bar> < 1 / 2" unfolding x by linarith
  then have "np_round d = j" by (rule np_round_unique)
  moreover have "np_round (of_int k / 255) = j"
    unfolding j_def by (rule np_round_unique) (rule near_255)
  ultimately show ?thesis unfolding x by simp
qed


lemma pixel_index_level:
  assumes "1 \<le> n"
  shows "pixel_index n invert a =
    np_round ((1 - of_nat (unat (if invert then 255 - a else a)) / 255) * of_int (n - 1))"
proof -
  define u where "u = unat (if invert then 255 - a else a)"
  have u: "u \<le> 255" unfolding u_def by (rule unat_u8_le)
  define k where "k = (255 - int u) * (n - 1)"
  note l = level_closed [OF u assms, folded k_def]
  have "np_clip (np_round ((1 - of_nat u / 255) * of_int (n - 1))) 0 (n - 1)
      = np_round ((1 - of_nat u / 255) * of_int (n - 1))"
    unfolding l(1) np_clip_def using l(3,4) by simp
  then show ?thesis unfolding pixel_index_def Let_def u_def .
qed

lemma pixel_index_range:
  assumes "1 \<le> n"
  shows "0 \<le> pixel_index n invert a" "pixel_index n invert a < n"
  using assms by (simp_all add: pixel_index_def Let_def np_clip_def)


lemma pixel_index_black:
  assumes "1 \<le> n"
  shows "pixel_index n False 0 = n - 1" "pixel_index n True 0 = 0"
proof -
  have "np_round (of_int (n - 1)) = n - 1" by (rule np_round_unique) simp
  then show "pixel_index n False 0 = n - 1"
    unfolding pixel_index_level [OF assms] by simp
  have "np_round 0 = 0" by (rule np_round_unique [of 0 0, simplified])
  then show "pixel_index n True 0 = 0"
    unfolding pixel_index_level [OF assms] by simp
qed

section \<open>Lines, shapes and grids of one value\<close>

lemma join_row_ok:
  assumes "\<forall>i \<in> set row. 0 \<le> i \<and> i < int (length charset)"
  shows "join_row charset row = Inr (map (\<lambda>i. charset ! nat i) row)"
  using assms by (induction row) (simp_all add: py_getitem_def)

lemma build_lines_ok:
  assumes "\<forall>row \<in> set idx. \<forall>i \<in> set row. 0 \<le> i \<and> i < int (length charset)"
  shows "build_lines charset idx = Inr (map (map (\<lambda>i. charset ! nat i)) idx)"
  using assms by (induction idx) (simp_all add: join_row_ok)

lemma join_row_error: "join_row charset row = Inl e \<Longrightarrow> e = IndexError"
  by (induction row arbitrary: e)
    (auto simp: py_getitem_def Let_def split: if_splits sum.splits)

lemma build_lines_error: "build_lines charset idx = Inl e \<Longrightarrow> e = IndexError"
  by (induction idx arbitrary: e) (auto split: sum.splits dest: join_row_error)

lemma index_array_range:
  assumes "1 \<le> n"
  shows "\<forall>row \<in> set (index_array resize gray width n invert scale_y).
           \<forall>i \<in> set row. 0 \<le> i \<and> i < n"
  using pixel_index_range [OF assms] by (auto simp: index_array_def Let_def)

lemma target_height_pos: "1 \<le> target_height w0 h0 width scale_y"
  by (simp add: target_height_def Let_def)

lemma length_np_array: "length (np_array g) = img_h g"
  by (simp add: np_array_def)

lemma width_np_array: "row \<in> set (np_array g) \<Longrightarrow> length row = img_w g"
  by (auto simp: np_array_def)

lemma index_array_shape:
  assumes "keeps_size resize" "10 \<le> width"
  shows "length (index_array resize gray width n invert scale_y)
           = nat (target_height (img_w gray) (img_h gray) width scale_y)"
    and "\<forall>row \<in> set (index_array resize gray width n invert scale_y). length row = nat width"
proof -
  define h where "h = target_height (img_w gray) (img_h gray) width scale_y"
  have "0 < nat width" "0 < nat h"
    using assms(2) target_height_pos [of "img_w gray" "img_h gray" width scale_y]
    by (simp_all add: h_def)
  with assms(1) have "img_w (resize gray (nat width, nat h)) = nat width"
    "img_h (resize gray (nat width, nat h)) = nat h"
    by (simp_all add: keeps_size_def)
  then show "length (index_array resize gray width n invert scale_y)
           = nat (target_height (img_w gray) (img_h gray) width scale_y)"
    and "\<forall>row \<in> set (index_array resize gray width n invert scale_y). length row = nat width"
    by (auto simp: index_array_def Let_def h_def length_np_array width_np_array)
qed

lemma image_to_ascii_lines_ok:
  assumes "10 \<le> width" "0 < img_w gray" "charset \<noteq> []"
  shows "image_to_ascii_lines resize gray width charset invert scale_y =
    Inr (map (map (\<lambda>i. charset ! nat i))
          (index_array resize gray width (int (length charset)) invert scale_y))"
proof -
  have "1 \<le> int (length charset)" using assms(3) by (cases charset) simp_all
  from index_array_range [OF this] show ?thesis
    using assms(1,2) by (simp add: image_to_ascii_lines_def build_lines_ok)
qed

lemma is_uniform_iff:
  "is_uniform g v \<longleftrightarrow> (\<forall>y < img_h g. \<forall>x < img_w g. pix g x y = v)"
  by (auto simp: is_uniform_def np_array_def)

lemma uniform_np_array:
  assumes "is_uniform g v"
  shows "np_array g = replicate (img_h g) (replicate (img_w g) v)"
proof -
  have row: "map (\<lambda>x. pix g x y) [0..<img_w g] = replicate (img_w g) v" if "y < img_h g" for y
    using assms that by (auto simp: is_uniform_iff intro!: replicate_eqI)
  show ?thesis unfolding np_array_def
    by (rule replicate_eqI) (auto simp: row)
qed

lemma nearest_keeps_size: "keeps_size nearest_resize"
  by (simp add: keeps_size_def nearest_resize_def)

lemma scaled_index_less:
  fixes x w w0 :: nat
  assumes "x < w"
  shows "x * w0 div w < w0 \<or> w0 = 0"
proof (cases "w0 = 0")
  case False
  then have "x * w0 < w0 * w" using assms by (simp add: mult.commute)
  then show ?thesis using assms by (simp add: div_less_iff_less_mult)
qed simp

lemma nearest_keeps_uniform: "keeps_uniform nearest_resize"
  unfolding keeps_uniform_def is_uniform_iff
proof (intro allI impI)
  fix g w h v y x
  assume g: "0 < img_w g" "0 < img_h g" and u: "\<forall>y<img_h g. \<forall>x<img_w g. pix g x y = v"
    and y: "y < img_h (nearest_resize g (w, h))" and x: "x < img_w (nearest_resize g (w, h))"
  from x y have "x < w" "y < h" by (simp_all add: nearest_resize_def)
  then have "x * img_w g div w < img_w g" "y * img_h g div h < img_h g"
    using scaled_index_less [of x w "img_w g"] scaled_index_less [of y h "img_h g"] g by simp_all
  with u show "pix (nearest_resize g (w, h)) x y = v" by (simp add: nearest_resize_def)
qed

lemma flat_uniform: "is_uniform (flat_image w h v) v"
  by (simp add: is_uniform_iff flat_image_def)

lemma uniform_index_array:
  assumes "keeps_size resize" "keeps_uniform resize" "10 \<le> width"
    "0 < img_w gray" "0 < img_h gray" "is_uniform gray v"
  shows "index_array resize gray width n invert scale_y =
    replicate (nat (target_height (img_w gray) (img_h gray) width scale_y))
      (replicate (nat width) (pixel_index n invert v))"
proof -
  define h where "h = target_height (img_w gray) (img_h gray) width scale_y"
  have pos: "0 < nat width" "0 < nat h"
    using assms(3) target_height_pos [of "img_w gray" "img_h gray" width scale_y]
    by (simp_all add: h_def)
  with assms(1) have sz: "img_w (resize gray (nat width, nat h)) = nat width"
    "img_h (resize gray (nat width, nat h)) = nat h"
    by (simp_all add: keeps_size_def)
  have "is_uniform (resize gray (nat width, nat h)) v"
    using assms(2,4,5,6) by (simp add: keeps_uniform_def)
  from uniform_np_array [OF this] show ?thesis
    by (simp add: index_array_def Let_def h_def [symmetric] sz)
qed

section \<open>The rasterizer's cell and column count\<close>





section \<open>The claims\<close>

subsection \<open>C1: the size of the resampled character grid\<close>




subsection \<open>C2: the palette index of an intensity\<close>



subsection \<open>C3: inverting mirrors the index\<close>



subsection \<open>C4: a black grid\<close>

text \<open>
  Claim C4. For every non-empty source grid whose pixels are all zero, the conversion
  with the invert flag clear returns the last palette character at every position, and
  with the flag set the first palette character at every position; the output has at
  least one row and one column. The resampler is any one that returns an image of the
  size it is asked for and resamples a grid of one value to that value.
\<close>

theorem black_grid_lines:
  assumes "keeps_size resize" and "keeps_uniform resize" and "10 \<le> width"
    and "0 < img_w gray" and "0 < img_h gray" and "charset \<noteq> []" and "is_uniform gray 0"
  shows "image_to_ascii_lines resize gray width charset False scale_y =
      Inr (replicate (nat (target_height (img_w gray) (img_h gray) width scale_y))
             (replicate (nat width) (last charset)))
    \<and> image_to_ascii_lines resize gray width charset True scale_y =
      Inr (replicate (nat (target_height (img_w gray) (img_h gray) width scale_y))
             (replicate (nat width) (hd charset)))
    \<and> 0 < nat (target_height (img_w gray) (img_h gray) width scale_y) \<and> 0 < nat width"
proof -
  have n: "1 \<le> int (length charset)" using assms(6) by (cases charset) simp_all
  have l: "charset ! nat (int (length charset) - 1) = last charset"
  proof -
    have "nat (int (length charset) - 1) = length charset - 1" by arith
    then show ?thesis using last_conv_nth [OF assms(6)] by simp
  qed
  have f: "charset ! 0 = hd charset"
    using assms(6) by (simp add: hd_conv_nth)
  have "1 \<le> target_height (img_w gray) (img_h gray) width scale_y"
    by (rule target_height_pos)
  then show ?thesis
    using assms(3) l f
    by (simp add: image_to_ascii_lines_ok [OF assms(3,4,6)]
        uniform_index_array [OF assms(1,2,3,4,5,7)] pixel_index_black [OF n])
qed

theorem black_grid_lines_witness:
  "keeps_size nearest_resize \<and> keeps_uniform nearest_resize \<and> (10 :: int) \<le> 12
   \<and> 0 < img_w (flat_image 24 8 0) \<and> 0 < img_h (flat_image 24 8 0) \<and> DEFAULT_CHARSET \<noteq> []
   \<and> is_uniform (flat_image 24 8 0) 0
   \<and> image_to_ascii_lines nearest_resize (flat_image 24 8 0) 12 DEFAULT_CHARSET False (1 / 2) =
       Inr (replicate 2 (replicate 12 32))
   \<and> image_to_ascii_lines nearest_resize (flat_image 24 8 0) 12 DEFAULT_CHARSET True (1 / 2) =
       Inr (replicate 2 (replicate 12 64))"
proof -
  have h: "keeps_size nearest_resize" "keeps_uniform nearest_resize" "(10 :: int) \<le> 12"
    "0 < img_w (flat_image 24 8 0)" "0 < img_h (flat_image 24 8 0)" "DEFAULT_CHARSET \<noteq> []"
    "is_uniform (flat_image 24 8 0) 0"
    by (simp_all add: nearest_keeps_size nearest_keeps_uniform flat_uniform DEFAULT_CHARSET_def)
      (simp_all add: flat_image_def)
  have t: "target_height (img_w (flat_image 24 8 0)) (img_h (flat_image 24 8 0)) 12 (1 / 2) = 2"
  proof -
    have "target_height 24 8 12 (1 / 2) = 2" by code_simp
    then show ?thesis by (simp add: flat_image_def)
  qed
  have c: "last DEFAULT_CHARSET = 32" "hd DEFAULT_CHARSET = 64"
    by (simp_all add: DEFAULT_CHARSET_def)
  from black_grid_lines [OF h, of "1 / 2"] h show ?thesis
    unfolding t c by simp
qed

text \<open>
  In each preset the last character is the space and the first the heaviest glyph: the
  palettes of lines 24 to 30 are listed from heavy to light.
\<close>

lemma preset_last_is_space:
  assumes "(name, charset) \<in> set CHARSETS"
  shows "last charset = 32"
  using assms by (auto simp: CHARSETS_def)

subsection \<open>C5: the width check\<close>

text \<open>
  Claim C5. The conversion raises the error for a width that is too small exactly when
  the target width is below the minimum, which is 10: for every width below 10 it
  raises it and returns no lines, and for every width of 10 or more it does not raise
  it.
\<close>

theorem width_error_iff:
  "image_to_ascii_lines resize gray width charset invert scale_y = Inl WidthTooSmall
    \<longleftrightarrow> width < 10"
  by (auto simp: image_to_ascii_lines_def dest: build_lines_error)

theorem width_error_iff_witness:
  "image_to_ascii_lines nearest_resize (flat_image 64 3 255) 9 DEFAULT_CHARSET False (1 / 2)
      = Inl WidthTooSmall
   \<and> image_to_ascii_lines nearest_resize (flat_image 64 3 255) 10 DEFAULT_CHARSET False (1 / 2)
      \<noteq> Inl WidthTooSmall"
  using width_error_iff [of nearest_resize "flat_image 64 3 255" 9 DEFAULT_CHARSET False "1 / 2"]
    width_error_iff [of nearest_resize "flat_image 64 3 255" 10 DEFAULT_CHARSET False "1 / 2"]
  by simp

subsection \<open>C6: a grid of one intensity\<close>

text \<open>
  Claim C6. For every non-empty source grid whose pixels all have the same intensity,
  the conversion returns a character grid in which every position holds one and the
  same character of the palette. The resampler is as in C4.
\<close>

theorem uniform_grid_lines:
  assumes "keeps_size resize" and "keeps_uniform resize" and "10 \<le> width"
    and "0 < img_w gray" and "0 < img_h gray" and "charset \<noteq> []" and "is_uniform gray v"
  shows "\<exists>c \<in> set charset.
      image_to_ascii_lines resize gray width charset invert scale_y =
      Inr (replicate (nat (target_height (img_w gray) (img_h gray) width scale_y))
             (replicate (nat width) c))"
proof -
  have n: "1 \<le> int (length charset)" using assms(6) by (cases charset) simp_all
  define i where "i = pixel_index (int (length charset)) invert v"
  have "0 \<le> i" "i < int (length charset)"
    unfolding i_def by (rule pixel_index_range [OF n])+
  then have "charset ! nat i \<in> set charset" by simp
  moreover have "image_to_ascii_lines resize gray width charset invert scale_y =
      Inr (replicate (nat (target_height (img_w gray) (img_h gray) width scale_y))
             (replicate (nat width) (charset ! nat i)))"
    by (simp add: image_to_ascii_lines_ok [OF assms(3,4,6)]
        uniform_index_array [OF assms(1,2,3,4,5,7)] i_def)
  ultimately show ?thesis by blast
qed

theorem uniform_grid_lines_witness:
  "keeps_size nearest_resize \<and> keeps_uniform nearest_resize \<and> (10 :: int) \<le> 12
   \<and> 0 < img_w (flat_image 24 8 100) \<and> 0 < img_h (flat_image 24 8 100) \<and> DEFAULT_CHARSET \<noteq> []
   \<and> is_uniform (flat_image 24 8 100) 100
   \<and> (\<exists>c \<in> set DEFAULT_CHARSET.
        image_to_ascii_lines nearest_resize (flat_image 24 8 100) 12 DEFAULT_CHARSET False (1 / 2) =
        Inr (replicate 2 (replicate 12 c)))"
proof -
  have h: "keeps_size nearest_resize" "keeps_uniform nearest_resize" "(10 :: int) \<le> 12"
    "0 < img_w (flat_image 24 8 100)" "0 < img_h (flat_image 24 8 100)" "DEFAULT_CHARSET \<noteq> []"
    "is_uniform (flat_image 24 8 100) 100"
    by (simp_all add: nearest_keeps_size nearest_keeps_uniform flat_uniform DEFAULT_CHARSET_def)
      (simp_all add: flat_image_def)
  have t: "target_height (img_w (flat_image 24 8 100)) (img_h (flat_image 24 8 100)) 12 (1 / 2) = 2"
  proof -
    have "target_height 24 8 12 (1 / 2) = 2" by code_simp
    then show ?thesis by (simp add: flat_image_def)
  qed
  from uniform_grid_lines [OF h, of False "1 / 2"] h show ?thesis
    unfolding t by simp
qed

subsection \<open>C7: the canvas of the rasterizer\<close>



subsection \<open>C8: a missing input\<close>




subsection \<open>C9: every output character is in the palette\<close>

text \<open>
  Claim C9. For every input grid of non-zero width, every width of at least 10, every
  scale factor and invert flag, and every palette of the configured presets, the
  conversion returns lines in which every character is a member of that palette, and
  every computed index lies between 0 and \<open>n - 1\<close> for the palette size \<open>n\<close>.
\<close>

theorem preset_characters:
  assumes "(name, charset) \<in> set CHARSETS" and "10 \<le> width" and "0 < img_w gray"
  shows "\<exists>lines. image_to_ascii_lines resize gray width charset invert scale_y = Inr lines
    \<and> (\<forall>l \<in> set lines. set l \<subseteq> set charset)
    \<and> (\<forall>row \<in> set (index_array resize gray width (int (length charset)) invert scale_y).
          \<forall>i \<in> set row. 0 \<le> i \<and> i \<le> int (length charset) - 1)"
proof -
  have ne: "charset \<noteq> []" using assms(1) by (auto simp: CHARSETS_def)
  then have n: "1 \<le> int (length charset)" by (cases charset) simp_all
  note r = index_array_range [OF n, of resize gray width invert scale_y]
  have "\<forall>l \<in> set (map (map (\<lambda>i. charset ! nat i))
          (index_array resize gray width (int (length charset)) invert scale_y)).
        set l \<subseteq> set charset"
    using r by fastforce
  then show ?thesis
    using r unfolding image_to_ascii_lines_ok [OF assms(2,3) ne] by fastforce
qed

theorem preset_characters_witness:
  "(''blocks'', [9608, 9619, 9618, 9617, 32]) \<in> set CHARSETS \<and> (10 :: int) \<le> 16
   \<and> 0 < img_w (ramp_image 16 8)
   \<and> image_to_ascii_lines nearest_resize (ramp_image 16 8) 16 [9608, 9619, 9618, 9617, 32] True (1 / 4)
      = Inr [[9608, 9608, 9619, 9619, 9619, 9619, 9618, 9618, 9618, 9618, 9617, 9617, 9617, 9617, 32, 32],
             [9608, 9608, 9619, 9619, 9619, 9619, 9618, 9618, 9618, 9618, 9617, 9617, 9617, 9617, 32, 32]]"
proof -
  have h: "(''blocks'', [9608, 9619, 9618, 9617, 32]) \<in> set CHARSETS" "(10 :: int) \<le> 16"
    "0 < img_w (ramp_image 16 8)"
    by (simp_all add: CHARSETS_def ramp_image_def)
  have "image_to_ascii_lines nearest_resize (ramp_image 16 8) 16 [9608, 9619, 9618, 9617, 32] True (1 / 4)
      = Inr [[9608, 9608, 9619, 9619, 9619, 9619, 9618, 9618, 9618, 9618, 9617, 9617, 9617, 9617, 32, 32],
             [9608, 9608, 9619, 9619, 9619, 9619, 9618, 9618, 9618, 9618, 9617, 9617, 9617, 9617, 32, 32]]"
    by code_simp
  with preset_characters [OF h, of nearest_resize True "1 / 4"] h show ?thesis by simp
qed

subsection \<open>C10: at least one row\<close>

text \<open>
  Claim C10. For every source grid of non-zero width and every scale factor (positive
  or not), the conversion returns at least one row: the number of rows is the target
  height, which is forced to a minimum of 1 also when \<open>H0 * (W / W0) * s\<close> truncates to
  zero. The resampler is any one that returns an image of the size it is asked for.
\<close>

theorem at_least_one_row:
  assumes "keeps_size resize" and "10 \<le> width" and "0 < img_w gray" and "charset \<noteq> []"
  shows "\<exists>lines. image_to_ascii_lines resize gray width charset invert scale_y = Inr lines
    \<and> 1 \<le> length lines
    \<and> int (length lines) = target_height (img_w gray) (img_h gray) width scale_y"
proof -
  note shape = index_array_shape [OF assms(1,2), of gray "int (length charset)" invert scale_y]
  have "1 \<le> target_height (img_w gray) (img_h gray) width scale_y"
    by (rule target_height_pos)
  then show ?thesis
    using shape by (simp add: image_to_ascii_lines_ok [OF assms(2,3,4)])
qed

text \<open>A 64 by 3 grid at width 16 and scale 1/2: the product is 0.375, and there is one row.\<close>

theorem at_least_one_row_witness:
  "keeps_size nearest_resize \<and> (10 :: int) \<le> 16 \<and> 0 < img_w (flat_image 64 3 255)
   \<and> DEFAULT_CHARSET \<noteq> [] \<and> py_int (of_nat 3 * (of_int 16 / of_nat 64) * (1 / 2)) = 0
   \<and> image_to_ascii_lines nearest_resize (flat_image 64 3 255) 16 DEFAULT_CHARSET False (1 / 2)
      = Inr [[64, 64, 64, 64, 64, 64, 64, 64, 64, 64, 64, 64, 64, 64, 64, 64]]"
proof -
  have h: "keeps_size nearest_resize" "(10 :: int) \<le> 16" "0 < img_w (flat_image 64 3 255)"
    "DEFAULT_CHARSET \<noteq> []"
    by (simp_all add: nearest_keeps_size flat_image_def DEFAULT_CHARSET_def)
  have z: "py_int (of_nat 3 * (of_int 16 / of_nat 64) * (1 / 2)) = 0" by code_simp
  have "image_to_ascii_lines nearest_resize (flat_image 64 3 255) 16 DEFAULT_CHARSET False (1 / 2)
      = Inr [[64, 64, 64, 64, 64, 64, 64, 64, 64, 64, 64, 64, 64, 64, 64, 64]]"
    by code_simp
  with at_least_one_row [OF h, of False "1 / 2"] h z show ?thesis by simp
qed

end
